theory Spec2Isabelle
  imports Complex_Main "HOL-Library.Multiset"
begin

section \<open>Numbers and configuration\<close>

text \<open>
  A JavaScript number is NaN, one of the two infinities, or a finite value. Finite values
  are idealised as exact rationals: the value the number's decimal string denotes.
  Rounding of binary floating point is not part of this model.
\<close>

datatype jsnum = NaN | PosInf | NegInf | Fin rat

text \<open>The fields of \<open>OCR_CONFIG\<close> (\<open>src/dist/config/ocr-config.js\<close>) the code below reads.\<close>

definition VALID_RANGE_min :: rat where "VALID_RANGE_min = 10"
definition VALID_RANGE_max :: rat where "VALID_RANGE_max = 999999"
definition MAX_DECIMAL_PLACES :: nat where "MAX_DECIMAL_PLACES = 3"
definition CONSUMPTION_RANGE_min :: rat where "CONSUMPTION_RANGE_min = 1 / 10"
definition CONSUMPTION_RANGE_max :: rat where "CONSUMPTION_RANGE_max = 200"
definition MIN_OCR_CONFIDENCE :: rat where "MIN_OCR_CONFIDENCE = 60"
definition maxAttempts :: nat where "maxAttempts = 3"

section \<open>Reading validator (\<open>src/dist/utils/ocr-processor.js\<close>)\<close>

subsection \<open>\<open>reading.toString().split('.')[1]\<close>\<close>

text \<open>
  The digits \<open>Number.prototype.toString\<close> prints after the decimal point, for a value
  printed in positional notation (every value between \<open>1e-6\<close> and \<open>1e21\<close>, so every
  value that reaches the decimal-places check). The string has no trailing zeros and at
  most 17 significant digits, which bounds the recursion.
\<close>

fun fracDigits :: "nat \<Rightarrow> rat \<Rightarrow> nat list" where
  "fracDigits 0 f = []"
| "fracDigits (Suc n) f =
     (if f = 0 then []
      else nat \<lfloor>f * 10\<rfloor> # fracDigits n (f * 10 - of_int \<lfloor>f * 10\<rfloor>))"

definition toStringFraction :: "rat \<Rightarrow> nat list" where
  "toStringFraction x = fracDigits 17 (\<bar>x\<bar> - of_int \<lfloor>\<bar>x\<bar>\<rfloor>)"

subsection \<open>\<open>validateReading\<close>\<close>

datatype error =
    InvalidNumberFormat
  | ReadingMustBePositive
  | ReadingTooSmall rat
  | ReadingTooLarge rat
  | TooManyDecimalPlaces
  | StartReading "error option"
  | EndReading "error option"
  | EndMustBeGreaterThanStart
  | ConsumptionTooLow rat
  | ConsumptionTooHigh rat
  | ExceedsTheoreticalMaximum rat rat
  | ExceedsBatteryCapacity rat
  | StartReadingNotFound

record outcome =
  valid :: bool
  error :: "error option"

definition ok :: outcome where
  "ok = \<lparr>valid = True, error = None\<rparr>"

definition fail :: "error \<Rightarrow> outcome" where
  "fail e = \<lparr>valid = False, error = Some e\<rparr>"

fun validateReading :: "jsnum \<Rightarrow> outcome" where
  "validateReading NaN = fail InvalidNumberFormat"
| "validateReading PosInf = fail InvalidNumberFormat"
| "validateReading NegInf = fail InvalidNumberFormat"
| "validateReading (Fin reading) =
     (if reading \<le> 0 then fail ReadingMustBePositive
      else if reading < VALID_RANGE_min then fail (ReadingTooSmall VALID_RANGE_min)
      else if reading > VALID_RANGE_max then fail (ReadingTooLarge VALID_RANGE_max)
      else (let decimals = length (toStringFraction reading) in
        if decimals > MAX_DECIMAL_PLACES then fail TooManyDecimalPlaces
        else ok))"

subsection \<open>\<open>calculateConsumption\<close>\<close>

record consumption_result = outcome +
  consumption :: "rat option"

text \<open>\<open>Math.round\<close> rounds to the nearest integer, halves towards \<open>+\<infinity>\<close>.\<close>

definition Math_round :: "rat \<Rightarrow> int" where
  "Math_round x = \<lfloor>x + 1 / 2\<rfloor>"

definition consumption_fail :: "error \<Rightarrow> consumption_result" where
  "consumption_fail e = \<lparr>valid = False, error = Some e, consumption = None\<rparr>"

text \<open>
  Once both readings have passed \<open>validateReading\<close> they are finite; the last branch of
  the case distinction is never reached (lemma \<open>validateReading_valid_Fin\<close>).
\<close>

definition calculateConsumption :: "jsnum \<Rightarrow> jsnum \<Rightarrow> consumption_result" where
  "calculateConsumption start end' =
     (let v1 = validateReading start; v2 = validateReading end' in
      if \<not> valid v1 then consumption_fail (StartReading (error v1))
      else if \<not> valid v2 then consumption_fail (EndReading (error v2))
      else (case (start, end') of
        (Fin s, Fin e) \<Rightarrow>
          if e \<le> s then consumption_fail EndMustBeGreaterThanStart
          else (let cons = e - s in
            if cons < CONSUMPTION_RANGE_min
              then consumption_fail (ConsumptionTooLow CONSUMPTION_RANGE_min)
            else if cons > CONSUMPTION_RANGE_max
              then consumption_fail (ConsumptionTooHigh CONSUMPTION_RANGE_max)
            else \<lparr>valid = True, error = None,
                   consumption = Some (of_int (Math_round (cons * 100)) / 100)\<rparr>)
      | _ \<Rightarrow> consumption_fail InvalidNumberFormat))"

subsection \<open>\<open>validateConsumptionWithContext\<close>\<close>

text \<open>
  Division and comparison on JavaScript numbers: a zero divisor gives an infinity or NaN,
  and every comparison with NaN is false. The sign of a zero divisor is not tracked; the
  divisors below are nonzero whenever the duration is at least one minute and the charger
  power is not zero, which is how \<open>validateConsumption\<close> calls the function.
\<close>

definition js_div :: "rat \<Rightarrow> rat \<Rightarrow> jsnum" where
  "js_div a b =
     (if b \<noteq> 0 then Fin (a / b)
      else if a = 0 then NaN else if 0 < a then PosInf else NegInf)"

fun js_times :: "jsnum \<Rightarrow> rat \<Rightarrow> jsnum" where
  "js_times (Fin a) k = Fin (a * k)"
| "js_times NaN k = NaN"
| "js_times PosInf k = (if k = 0 then NaN else if 0 < k then PosInf else NegInf)"
| "js_times NegInf k = (if k = 0 then NaN else if 0 < k then NegInf else PosInf)"

fun js_gt :: "jsnum \<Rightarrow> rat \<Rightarrow> bool" where
  "js_gt (Fin a) b = (a > b)"
| "js_gt PosInf b = True"
| "js_gt NegInf b = False"
| "js_gt NaN b = False"

fun js_lt :: "jsnum \<Rightarrow> rat \<Rightarrow> bool" where
  "js_lt (Fin a) b = (a < b)"
| "js_lt NegInf b = True"
| "js_lt PosInf b = False"
| "js_lt NaN b = False"

datatype warning =
    PowerCloseToChargerLimit
  | LowEfficiency jsnum
  | DurationTooShort

record context_result = outcome +
  warnings :: "warning list option"

definition validateConsumptionWithContext ::
  "rat \<Rightarrow> rat \<Rightarrow> rat \<Rightarrow> rat option \<Rightarrow> context_result" where
  "validateConsumptionWithContext consumption' durationMinutes chargerPowerKw batteryCapacityKwh =
     (let durationHours = durationMinutes / 60;
          theoreticalMax = durationHours * chargerPowerKw * (95 / 100) in
      if consumption' > theoreticalMax * (115 / 100)
        then \<lparr>valid = False,
              error = Some (ExceedsTheoreticalMaximum consumption' theoreticalMax),
              warnings = None\<rparr>
      else if (case batteryCapacityKwh of
                 None \<Rightarrow> False
               | Some b \<Rightarrow> b \<noteq> 0 \<and> consumption' > b * (105 / 100))
        then \<lparr>valid = False,
              error = map_option ExceedsBatteryCapacity batteryCapacityKwh,
              warnings = None\<rparr>
      else (let avgPower = js_div consumption' durationHours;
                warnings1 = (if js_gt avgPower (chargerPowerKw * (98 / 100))
                             then [PowerCloseToChargerLimit] else []);
                efficiency = js_times (js_div consumption' (durationHours * chargerPowerKw)) 100;
                warnings2 = warnings1 @ (if js_lt efficiency 60
                                         then [LowEfficiency efficiency] else [])
            in \<lparr>valid = True, error = None,
                 warnings = (if warnings2 \<noteq> [] then Some warnings2 else None)\<rparr>))"

section \<open>Text: characters, \<open>parseFloat\<close>, regular expressions\<close>

text \<open>
  Strings are lists of ASCII characters. \<open>\s\<close> is the ASCII white space (tab, line
  feed, vertical tab, form feed, carriage return, space).
\<close>

definition isDigit :: "char \<Rightarrow> bool" where
  "isDigit c = (c \<in> set ''0123456789'')"

definition isSpace :: "char \<Rightarrow> bool" where
  "isSpace c = (c \<in> set [CHR 0x09, CHR 0x0A, CHR 0x0B, CHR 0x0C, CHR 0x0D, CHR '' ''])"

definition toUpper :: "char \<Rightarrow> char" where
  "toUpper c =
     (case map_of (zip ''abcdefghijklmnopqrstuvwxyz'' ''ABCDEFGHIJKLMNOPQRSTUVWXYZ'') c of
        None \<Rightarrow> c
      | Some u \<Rightarrow> u)"

definition toUpperCase :: "string \<Rightarrow> string" where
  "toUpperCase s = map toUpper s"

definition trim :: "string \<Rightarrow> string" where
  "trim s = rev (dropWhile isSpace (rev (dropWhile isSpace s)))"

fun startsWith :: "string \<Rightarrow> string \<Rightarrow> bool" where
  "startsWith s [] = True"
| "startsWith [] (p # ps) = False"
| "startsWith (c # cs) (p # ps) = (c = p \<and> startsWith cs ps)"

fun includes' :: "string \<Rightarrow> string \<Rightarrow> bool" where
  "includes' [] sub = (sub = [])"
| "includes' (c # cs) sub = (startsWith (c # cs) sub \<or> includes' cs sub)"

subsection \<open>\<open>parseFloat\<close>\<close>

definition digitValue :: "char \<Rightarrow> int" where
  "digitValue c =
     (case map_of (zip ''0123456789'' [0, 1, 2, 3, 4, 5, 6, 7, 8, 9]) c of
        None \<Rightarrow> 0
      | Some d \<Rightarrow> d)"

definition digitsValue :: "string \<Rightarrow> int" where
  "digitsValue ds = foldl (\<lambda>a c. 10 * a + digitValue c) 0 ds"

text \<open>
  The exponent part \<open>e[+-]digits\<close> of a decimal literal: the power of ten to scale by,
  or 1 when the text that follows the mantissa is no exponent.
\<close>

definition exponentScale :: "string \<Rightarrow> rat" where
  "exponentScale r =
     (case r of
        [] \<Rightarrow> 1
      | e # r1 \<Rightarrow>
          if e = CHR ''e'' \<or> e = CHR ''E'' then
            (case r1 of
               [] \<Rightarrow> 1
             | s # r2 \<Rightarrow>
                 if s = CHR ''-'' then
                   (if takeWhile isDigit r2 = [] then 1
                    else 1 / 10 ^ nat (digitsValue (takeWhile isDigit r2)))
                 else if s = CHR ''+'' then
                   (if takeWhile isDigit r2 = [] then 1
                    else 10 ^ nat (digitsValue (takeWhile isDigit r2)))
                 else
                   (if takeWhile isDigit r1 = [] then 1
                    else 10 ^ nat (digitsValue (takeWhile isDigit r1))))
          else 1)"

text \<open>
  \<open>parseFloat\<close> skips leading white space and reads the longest prefix that is a decimal
  literal; the result is NaN when there is none. Overflow to an infinity is not modelled.
\<close>

definition parseUnsigned :: "string \<Rightarrow> rat option" where
  "parseUnsigned u =
     (let ip = takeWhile isDigit u; r1 = dropWhile isDigit u;
          fp = (case r1 of [] \<Rightarrow> [] | d # r \<Rightarrow>
                  if d = CHR ''.'' then takeWhile isDigit r else []);
          r2 = (case r1 of [] \<Rightarrow> [] | d # r \<Rightarrow>
                  if d = CHR ''.'' \<and> (ip \<noteq> [] \<or> fp \<noteq> []) then dropWhile isDigit r else r1)
      in if ip = [] \<and> fp = [] then None
         else Some ((of_int (digitsValue ip) + of_int (digitsValue fp) / 10 ^ length fp)
                    * exponentScale r2))"

definition parseFloat :: "string \<Rightarrow> jsnum" where
  "parseFloat s =
     (let t = dropWhile isSpace s;
          neg = (case t of [] \<Rightarrow> False | c # _ \<Rightarrow> c = CHR ''-'');
          u = (case t of [] \<Rightarrow> [] | c # r \<Rightarrow>
                 if c = CHR ''-'' \<or> c = CHR ''+'' then r else t)
      in if startsWith u ''Infinity'' then (if neg then NegInf else PosInf)
         else (case parseUnsigned u of
                 None \<Rightarrow> NaN
               | Some m \<Rightarrow> Fin (if neg then - m else m)))"

subsection \<open>A backtracking matcher for the regular expressions of the source\<close>

text \<open>
  The expressions of the source use literals, character classes, \<open>?\<close>, greedy counted
  repetition of a class, sequence and alternation. \<open>ms r s\<close> lists, in the order a
  backtracking matcher tries them, what is left of \<open>s\<close> after a match of \<open>r\<close> at its
  start. All expressions of the source carry the \<open>i\<close> flag: a letter of an expression is
  written as the class of its two cases (\<open>ci\<close>, \<open>StrI\<close>).
\<close>

datatype cls = Digit | Space | AnyOf string | Union cls cls

fun in_cls :: "cls \<Rightarrow> char \<Rightarrow> bool" where
  "in_cls Digit c = isDigit c"
| "in_cls Space c = isSpace c"
| "in_cls (AnyOf cs) c = (c \<in> set cs)"
| "in_cls (Union a b) c = (in_cls a c \<or> in_cls b c)"

datatype rx =
    Eps
  | Cls cls
  | Opt rx
  | Rep cls nat "nat option"
  | Seq rx rx
  | Alt rx rx

fun ms :: "rx \<Rightarrow> string \<Rightarrow> string list" where
  "ms Eps s = [s]"
| "ms (Cls k) s =
     (case s of [] \<Rightarrow> [] | x # xs \<Rightarrow> if in_cls k x then [xs] else [])"
| "ms (Opt r) s = ms r s @ [s]"
| "ms (Rep k lo hi) s =
     (let run = length (takeWhile (in_cls k) s);
          most = (case hi of None \<Rightarrow> run | Some b \<Rightarrow> min run b)
      in if most < lo then [] else map (\<lambda>j. drop j s) (rev [lo..<Suc most]))"
| "ms (Seq a b) s = concat (map (ms b) (ms a s))"
| "ms (Alt a b) s = ms a s @ ms b s"

definition ci :: "char \<Rightarrow> char \<Rightarrow> rx" where
  "ci upper lower = Cls (AnyOf [upper, lower])"

definition Ch :: "char \<Rightarrow> rx" where
  "Ch c = Cls (AnyOf [c])"

definition StrI :: "string \<Rightarrow> string \<Rightarrow> rx" where
  "StrI upper lower = foldr (\<lambda>(u, l) r. Seq (ci u l) r) (zip upper lower) Eps"

text \<open>
  A pattern with one capturing group: what comes before the group, the group, what comes
  after. \<open>matchAt\<close> gives the text of the group and the length of the whole match for the
  first way to match at the start of \<open>s\<close>; \<open>search\<close> tries every start from left to right,
  as \<open>String.prototype.match\<close> and \<open>RegExp.prototype.exec\<close> do.
\<close>

type_synonym pattern = "rx \<times> rx \<times> rx"

definition matchAt :: "pattern \<Rightarrow> string \<Rightarrow> (string \<times> nat) option" where
  "matchAt p s =
     (case p of (pre, grp, post) \<Rightarrow>
        (case concat (map (\<lambda>r1. concat (map (\<lambda>r2. map (\<lambda>r3.
                  (take (length r1 - length r2) r1, length s - length r3))
                (ms post r2)) (ms grp r1))) (ms pre s)) of
           [] \<Rightarrow> None
         | m # _ \<Rightarrow> Some m))"

fun search :: "pattern \<Rightarrow> nat \<Rightarrow> string \<Rightarrow> (nat \<times> string \<times> nat) option" where
  "search p i [] =
     (case matchAt p [] of Some (g, n) \<Rightarrow> Some (i, g, n) | None \<Rightarrow> None)"
| "search p i (c # cs) =
     (case matchAt p (c # cs) of
        Some (g, n) \<Rightarrow> Some (i, g, n)
      | None \<Rightarrow> search p (Suc i) cs)"

text \<open>\<open>RegExp.prototype.test\<close> for an expression without groups.\<close>

definition test :: "rx \<Rightarrow> string \<Rightarrow> bool" where
  "test r s = (search (Eps, r, Eps) 0 s \<noteq> None)"

section \<open>Candidate extractor (\<open>extractReadingFromText\<close>)\<close>

subsection \<open>Cleaning the raw text\<close>

text \<open>\<open>replace(/\s+/g, ' ')\<close>: every maximal run of white space becomes one space.\<close>

function collapseSpaces :: "string \<Rightarrow> string" where
  "collapseSpaces [] = []"
| "collapseSpaces (c # cs) =
     (if isSpace c then CHR '' '' # collapseSpaces (dropWhile isSpace cs)
      else c # collapseSpaces cs)"
  by pat_completeness auto
termination
  by (relation "measure length") (simp_all add: length_dropWhile_le le_imp_less_Suc)

definition replaceChars :: "string \<Rightarrow> char \<Rightarrow> string \<Rightarrow> string" where
  "replaceChars from to s = map (\<lambda>c. if c \<in> set from then to else c) s"

definition cleanText :: "string \<Rightarrow> string" where
  "cleanText text =
     replaceChars ''B'' (CHR ''8'')
      (replaceChars ''Z'' (CHR ''2'')
       (replaceChars ''S'' (CHR ''5'')
        (replaceChars ''IL'' (CHR ''1'')
         (replaceChars ''O'' (CHR ''0'')
          (toUpperCase
           (trim
            (collapseSpaces
             (replaceChars [CHR 0x0A, CHR 0x0D, CHR 0x09] (CHR '' '') text))))))))"

subsection \<open>The patterns\<close>

definition numberGroup :: rx where
  "numberGroup =
     Seq (Rep Digit 2 (Some 6)) (Opt (Seq (Ch (CHR ''.'')) (Rep Digit 1 (Some 3))))"

definition spaces :: rx where
  "spaces = Rep Space 0 None"

definition colonOrSpaces :: rx where
  "colonOrSpaces = Rep (Union (AnyOf '':'') Space) 1 None"

text \<open>
  \<open>kwhPatterns\<close>, in the order of the source:
  \<^verbatim>\<open>/(?:K?W?H?\s*[:\-=]?\s*)(\d{2,6}(?:\.\d{1,3})?)/i\<close>,
  \<^verbatim>\<open>/(\d{2,6}(?:\.\d{1,3})?)\s*(?:K?W?H?)/i\<close>,
  \<^verbatim>\<open>/ENERGY[:\s]+(\d{2,6}(?:\.\d{1,3})?)/i\<close>,
  \<^verbatim>\<open>/METER[:\s]+(\d{2,6}(?:\.\d{1,3})?)/i\<close>,
  \<^verbatim>\<open>/READING[:\s]+(\d{2,6}(?:\.\d{1,3})?)/i\<close>.
\<close>

definition optK :: rx where "optK = Opt (ci (CHR ''K'') (CHR ''k''))"
definition optW :: rx where "optW = Opt (ci (CHR ''W'') (CHR ''w''))"
definition optH :: rx where "optH = Opt (ci (CHR ''H'') (CHR ''h''))"

definition kwhPatterns :: "pattern list" where
  "kwhPatterns =
     [(Seq optK (Seq optW (Seq optH
         (Seq spaces (Seq (Opt (Cls (AnyOf '':-=''))) spaces)))),
       numberGroup, Eps),
      (Eps, numberGroup, Seq spaces (Seq optK (Seq optW optH))),
      (Seq (StrI ''ENERGY'' ''energy'') colonOrSpaces, numberGroup, Eps),
      (Seq (StrI ''METER'' ''meter'') colonOrSpaces, numberGroup, Eps),
      (Seq (StrI ''READING'' ''reading'') colonOrSpaces, numberGroup, Eps)]"

text \<open>\<^verbatim>\<open>/(\d{2,6}(?:\.\d{1,3})?)/g\<close> of \<open>extractNumberCandidates\<close>.\<close>

definition numberPattern :: pattern where
  "numberPattern = (Eps, numberGroup, Eps)"

text \<open>\<^verbatim>\<open>/K?W?H|ENERGY|METER|READING|CONSUMPTION/i\<close>, tested on a candidate's context.\<close>

definition contextKeywords :: rx where
  "contextKeywords =
     Alt (Seq optK (Seq optW (ci (CHR ''H'') (CHR ''h''))))
      (Alt (StrI ''ENERGY'' ''energy'') (Alt (StrI ''METER'' ''meter'')
        (Alt (StrI ''READING'' ''reading'') (StrI ''CONSUMPTION'' ''consumption''))))"

subsection \<open>\<open>isValidReading\<close> and the pattern stage\<close>

definition isValidReading :: "jsnum \<Rightarrow> bool" where
  "isValidReading num =
     (case num of Fin x \<Rightarrow> x \<ge> VALID_RANGE_min \<and> x \<le> VALID_RANGE_max | _ \<Rightarrow> False)"

text \<open>
  One turn of the loop over \<open>kwhPatterns\<close>: the number of the first match of the pattern,
  when the group is not empty and the number is a valid reading.
\<close>

definition patternReading :: "pattern \<Rightarrow> string \<Rightarrow> rat option" where
  "patternReading p clean =
     (case search p 0 clean of
        None \<Rightarrow> None
      | Some (i, g, n) \<Rightarrow>
          if g = [] then None
          else (case parseFloat g of
                  Fin num \<Rightarrow> if isValidReading (Fin num) then Some num else None
                | _ \<Rightarrow> None))"

fun matchPatterns :: "pattern list \<Rightarrow> string \<Rightarrow> rat option" where
  "matchPatterns [] clean = None"
| "matchPatterns (p # ps) clean =
     (case patternReading p clean of
        Some num \<Rightarrow> Some num
      | None \<Rightarrow> matchPatterns ps clean)"

subsection \<open>\<open>extractNumberCandidates\<close> and \<open>rankCandidates\<close>\<close>

record candidate =
  value' :: rat
  confidence :: nat
  position :: nat
  context' :: string

definition substring :: "string \<Rightarrow> nat \<Rightarrow> nat \<Rightarrow> string" where
  "substring s start end' = take (end' - start) (drop start s)"

definition candidateAt :: "string \<Rightarrow> nat \<Rightarrow> string \<Rightarrow> nat \<Rightarrow> candidate list" where
  "candidateAt text index g n =
     (case parseFloat g of
        Fin v \<Rightarrow>
          if isValidReading (Fin v) then
            (let start = index - 20;
                 end' = min (length text) (index + n + 20);
                 ctx = substring text start end';
                 c1 = 50 + (if test contextKeywords ctx then 30 else 0);
                 c2 = c1 + (if CHR ''.'' \<in> set g then 10 else 0);
                 c3 = c2 + (if v \<ge> 100 \<and> v \<le> 10000 then 10 else 0)
             in [\<lparr>value' = v, confidence = c3, position = index, context' = ctx\<rparr>])
          else []
      | _ \<Rightarrow> [])"

lemma ms_length: "r \<in> set (ms x s) \<Longrightarrow> length r \<le> length s"
proof (induction x arbitrary: s r)
  case (Seq a b)
  then obtain m where "m \<in> set (ms a s)" "r \<in> set (ms b m)" by auto
  with Seq.IH show ?case by (meson le_trans)
qed (auto split: list.splits if_splits simp: Let_def)

lemma ms_Seq: "r \<in> set (ms (Seq a b) s) \<longleftrightarrow> (\<exists>m \<in> set (ms a s). r \<in> set (ms b m))"
  by auto

lemma ms_Rep_lo: "r \<in> set (ms (Rep k lo hi) s) \<Longrightarrow> length r + lo \<le> length s"
proof -
  assume a: "r \<in> set (ms (Rep k lo hi) s)"
  define most where "most = (case hi of None \<Rightarrow> length (takeWhile (in_cls k) s)
    | Some b \<Rightarrow> min (length (takeWhile (in_cls k) s)) b)"
  have most: "most \<le> length s"
    unfolding most_def using length_takeWhile_le [of "in_cls k" s]
    by (auto split: option.splits)
  have "ms (Rep k lo hi) s =
      (if most < lo then [] else map (\<lambda>j. drop j s) (rev [lo..<Suc most]))"
    by (simp add: Let_def most_def)
  with a have "lo \<le> most" and "r = drop most s \<or> r \<in> (\<lambda>x. drop x s) ` {lo..<most}"
    by (simp_all split: if_splits del: ms.simps)
  then obtain j where "lo \<le> j" "j \<le> most" "r = drop j s"
    by auto
  with most show ?thesis by simp
qed

lemma ms_numberGroup: "r \<in> set (ms numberGroup s) \<Longrightarrow> length r + 2 \<le> length s"
proof -
  assume "r \<in> set (ms numberGroup s)"
  then obtain m where m: "m \<in> set (ms (Rep Digit 2 (Some 6)) s)"
    and r: "r \<in> set (ms (Opt (Seq (Ch (CHR ''.'')) (Rep Digit 1 (Some 3)))) m)"
    unfolding numberGroup_def ms_Seq by blast
  from ms_Rep_lo [OF m] ms_length [OF r] show ?thesis by linarith
qed

lemma matchAt_numberPattern:
  "matchAt numberPattern s = Some (g, n) \<Longrightarrow> 2 \<le> n \<and> n \<le> length s"
proof -
  assume a: "matchAt numberPattern s = Some (g, n)"
  then have "(g, n) \<in> set (map (\<lambda>r2. (take (length s - length r2) s, length s - length r2))
      (ms numberGroup s))"
    by (auto simp: matchAt_def numberPattern_def split: list.splits)
  then obtain r2 where "r2 \<in> set (ms numberGroup s)" "n = length s - length r2" by auto
  with ms_numberGroup [of r2 s] show ?thesis by linarith
qed

lemma search_numberPattern:
  "search numberPattern i s = Some (idx, g, n) \<Longrightarrow> i \<le> idx \<and> 2 \<le> n \<and> idx + n \<le> i + length s"
proof (induction s arbitrary: i)
  case Nil
  then show ?case by (auto split: option.splits dest: matchAt_numberPattern)
next
  case (Cons c cs)
  show ?case
  proof (cases "matchAt numberPattern (c # cs)")
    case None
    with Cons.prems have "search numberPattern (Suc i) cs = Some (idx, g, n)" by simp
    from Cons.IH [OF this] show ?thesis by simp
  next
    case (Some m)
    with Cons.prems have "matchAt numberPattern (c # cs) = Some (g, n)" "idx = i"
      by (auto split: prod.splits)
    with matchAt_numberPattern [of "c # cs" g n] show ?thesis by simp
  qed
qed

text \<open>
  The loop \<open>while ((match = numberPattern.exec(text)) !== null)\<close>: each search starts at
  \<open>lastIndex\<close>, the end of the previous match.
\<close>

function extractFrom :: "string \<Rightarrow> nat \<Rightarrow> candidate list" where
  "extractFrom text lastIndex =
     (case search numberPattern lastIndex (drop lastIndex text) of
        None \<Rightarrow> []
      | Some (index, g, n) \<Rightarrow> candidateAt text index g n @ extractFrom text (index + n))"
  by pat_completeness auto
termination
proof (relation "measure (\<lambda>(text, lastIndex). length text - lastIndex)")
  show "wf (measure (\<lambda>(text, lastIndex). length text - lastIndex))" by simp
next
  fix s lastIndex x2 index y g n
  assume "search numberPattern lastIndex (drop lastIndex s) = Some x2"
    and "(index, y) = x2" and "(g, n) = y"
  then have "search numberPattern lastIndex (drop lastIndex s) = Some (index, g, n)"
    by simp
  from search_numberPattern [OF this]
  show "((s, index + n), (s, lastIndex)) \<in> measure (\<lambda>(text, lastIndex). length text - lastIndex)"
    by simp linarith
qed

declare extractFrom.simps [simp del]

definition extractNumberCandidates :: "string \<Rightarrow> candidate list" where
  "extractNumberCandidates text = extractFrom text 0"

text \<open>
  The comparator of \<open>rankCandidates\<close>; \<open>Array.prototype.sort\<close> is a stable sort, modelled
  as insertion sort: an element goes before the first element it does not compare
  greater than.
\<close>

definition compareCandidates :: "candidate \<Rightarrow> candidate \<Rightarrow> rat" where
  "compareCandidates a b =
     (if confidence b \<noteq> confidence a then of_nat (confidence b) - of_nat (confidence a)
      else value' b - value' a)"

fun insertBy :: "('a \<Rightarrow> 'a \<Rightarrow> rat) \<Rightarrow> 'a \<Rightarrow> 'a list \<Rightarrow> 'a list" where
  "insertBy cmp x [] = [x]"
| "insertBy cmp x (y # ys) =
     (if cmp x y \<le> 0 then x # y # ys else y # insertBy cmp x ys)"

definition sortBy :: "('a \<Rightarrow> 'a \<Rightarrow> rat) \<Rightarrow> 'a list \<Rightarrow> 'a list" where
  "sortBy cmp xs = foldr (insertBy cmp) xs []"

definition rankCandidates :: "candidate list \<Rightarrow> candidate list" where
  "rankCandidates candidates = sortBy compareCandidates candidates"

subsection \<open>\<open>extractReadingFromText\<close>\<close>

definition selectCandidate :: "candidate list \<Rightarrow> rat option" where
  "selectCandidate candidates =
     (case candidates of
        [] \<Rightarrow> None
      | [c] \<Rightarrow> Some (value' c)
      | _ \<Rightarrow> (case rankCandidates candidates of
                [] \<Rightarrow> None
              | best # _ \<Rightarrow> Some (value' best)))"

definition extractReadingFromText :: "string \<Rightarrow> rat option" where
  "extractReadingFromText text =
     (let clean = cleanText text in
      case matchPatterns kwhPatterns clean of
        Some num \<Rightarrow> Some num
      | None \<Rightarrow> selectCandidate (extractNumberCandidates clean))"

section \<open>Confidence aggregator (\<open>performOCR\<close>)\<close>

text \<open>
  One entry of \<open>textAnnotations\<close>: its description and, when the entry has a bounding
  polygon with a vertex array, the length of that array.
\<close>

record detection =
  description :: "string option"
  vertices :: "nat option"

text \<open>What the call to the Vision client does: it throws, or returns the annotations.\<close>

datatype vision_response = VisionThrew string | VisionResult "detection list option"

datatype ocr_error =
    NoTextDetected
  | VeryLowConfidence
  | VisionAuthFailed
  | VisionQuotaExceeded
  | VisionApiError string
  | OcrFailed
  | NoValidReadingFound
  | ReadingRejected "error option"
  | Thrown string

record ocr_attempt =
  success :: bool
  error :: "ocr_error option"
  confidence :: "rat option"
  text' :: "string option"

text \<open>\<^verbatim>\<open>/\d/\<close> and \<^verbatim>\<open>/kwh|energy|meter/i\<close>.\<close>

definition anyDigit :: rx where
  "anyDigit = Cls Digit"

definition kwhEnergyMeter :: rx where
  "kwhEnergyMeter =
     Alt (StrI ''KWH'' ''kwh'') (Alt (StrI ''ENERGY'' ''energy'') (StrI ''METER'' ''meter''))"

definition wordConfidence :: "detection \<Rightarrow> nat" where
  "wordConfidence d =
     (let t = (case description d of None \<Rightarrow> [] | Some s \<Rightarrow> s);
          w1 = 70 + (if test anyDigit t then 15 else 0);
          w2 = w1 + (if test kwhEnergyMeter t then 10 else 0);
          w3 = w2 + (if vertices d = Some 4 then 5 else 0)
      in w3)"

definition avgConfidence :: "detection list \<Rightarrow> rat" where
  "avgConfidence words =
     (let totalConfidence = sum_list (map wordConfidence words);
          confidentWords = length words
      in if confidentWords > 0 then of_nat totalConfidence / of_nat confidentWords else 70)"

fun performOCR :: "vision_response \<Rightarrow> ocr_attempt" where
  "performOCR (VisionThrew m) =
     (if includes' m ''PERMISSION_DENIED''
        then \<lparr>success = False, error = Some VisionAuthFailed, confidence = None, text' = None\<rparr>
      else if includes' m ''QUOTA_EXCEEDED''
        then \<lparr>success = False, error = Some VisionQuotaExceeded, confidence = None, text' = None\<rparr>
      else \<lparr>success = False, error = Some (VisionApiError m), confidence = None, text' = None\<rparr>)"
| "performOCR (VisionResult None) =
     \<lparr>success = False, error = Some NoTextDetected, confidence = Some 0, text' = None\<rparr>"
| "performOCR (VisionResult (Some [])) =
     \<lparr>success = False, error = Some NoTextDetected, confidence = Some 0, text' = None\<rparr>"
| "performOCR (VisionResult (Some (d0 # words))) =
     (let fullText = (case description d0 of None \<Rightarrow> [] | Some s \<Rightarrow> s);
          avg = avgConfidence words
      in if avg < MIN_OCR_CONFIDENCE * (1 / 2)
           then \<lparr>success = False, error = Some VeryLowConfidence, confidence = Some avg,
                 text' = Some (trim fullText)\<rparr>
         else \<lparr>success = True, error = None, confidence = Some avg,
               text' = Some (trim fullText)\<rparr>)"

section \<open>Preprocessing escalation (\<open>extractKwhReading\<close>)\<close>

datatype strategy = Standard | Aggressive | AdaptiveThreshold

text \<open>
  A submitted image is known by what the collaborators do with it: for each strategy,
  whether the image library throws while preprocessing (\<open>Some\<close> the message) and what
  \<open>performOCR\<close> returns on the preprocessed image.
\<close>

record image =
  preprocess :: "strategy \<Rightarrow> string option"
  ocr :: "strategy \<Rightarrow> ocr_attempt"

definition imageOf ::
  "(strategy \<Rightarrow> string option) \<Rightarrow> (strategy \<Rightarrow> vision_response) \<Rightarrow> image" where
  "imageOf pre vision = \<lparr>preprocess = pre, ocr = (\<lambda>s. performOCR (vision s))\<rparr>"

text \<open>\<open>ocrResult.confidence && ocrResult.confidence < MIN_OCR_CONFIDENCE\<close>.\<close>

definition lowConfidence :: "ocr_attempt \<Rightarrow> bool" where
  "lowConfidence r =
     (case ocr_attempt.confidence r of
        None \<Rightarrow> False
      | Some c \<Rightarrow> c \<noteq> 0 \<and> c < MIN_OCR_CONFIDENCE)"

text \<open>
  The three attempts of \<open>extractKwhReading\<close>, with the list of the strategies whose
  \<open>performOCR\<close> call was made, in order. \<open>Inl\<close> is the message of an exception thrown
  by preprocessing, which the \<open>catch\<close> of \<open>extractKwhReading\<close> receives.
\<close>

definition runStrategies :: "image \<Rightarrow> strategy list \<times> (string + ocr_attempt)" where
  "runStrategies img =
     (case preprocess img Standard of
        Some m \<Rightarrow> ([], Inl (''Preprocessing failed: '' @ m))
      | None \<Rightarrow>
          (let r1 = ocr img Standard in
           if lowConfidence r1 then
             (case preprocess img Aggressive of
                Some m \<Rightarrow> ([Standard], Inl m)
              | None \<Rightarrow>
                  (let r2 = ocr img Aggressive in
                   if lowConfidence r2 then
                     (case preprocess img AdaptiveThreshold of
                        Some m \<Rightarrow> ([Standard, Aggressive], Inl m)
                      | None \<Rightarrow>
                          ([Standard, Aggressive, AdaptiveThreshold],
                           Inr (ocr img AdaptiveThreshold)))
                   else ([Standard, Aggressive], Inr r2)))
           else ([Standard], Inr r1)))"

text \<open>The result of \<open>extractKwhReading\<close>; tips for the user and timings are left out.\<close>

record OCRResult =
  success :: bool
  reading :: "rat option"
  confidence :: "rat option"
  rawText :: "string option"
  error :: "ocr_error option"

definition evaluateAttempt :: "ocr_attempt \<Rightarrow> OCRResult" where
  "evaluateAttempt ocrResult =
     (if \<not> ocr_attempt.success ocrResult then
        \<lparr>success = False, reading = None, confidence = None, rawText = None,
         error = (case ocr_attempt.error ocrResult of None \<Rightarrow> Some OcrFailed | Some e \<Rightarrow> Some e)\<rparr>
      else
        (case extractReadingFromText (case text' ocrResult of None \<Rightarrow> [] | Some t \<Rightarrow> t) of
           None \<Rightarrow>
             \<lparr>success = False, reading = None, confidence = ocr_attempt.confidence ocrResult,
              rawText = text' ocrResult, error = Some NoValidReadingFound\<rparr>
         | Some r \<Rightarrow>
             (let validation = validateReading (Fin r) in
              if \<not> valid validation then
                \<lparr>success = False, reading = Some r,
                 confidence = ocr_attempt.confidence ocrResult, rawText = None,
                 error = Some (ReadingRejected (outcome.error validation))\<rparr>
              else
                \<lparr>success = True, reading = Some r,
                 confidence = ocr_attempt.confidence ocrResult,
                 rawText = text' ocrResult, error = None\<rparr>)))"

definition extractKwhReading :: "image \<Rightarrow> strategy list \<times> OCRResult" where
  "extractKwhReading img =
     (case runStrategies img of
        (calls, Inl m) \<Rightarrow>
          (calls, \<lparr>success = False, reading = None, confidence = None, rawText = None,
                   error = Some (Thrown m)\<rparr>)
      | (calls, Inr ocrResult) \<Rightarrow> (calls, evaluateAttempt ocrResult))"

section \<open>Verification service (\<open>src/dist/services/photo-verification.js\<close>)\<close>

datatype vtype = Start | End
datatype provider = Vision | Manual

record VerificationState =
  sessionId :: string
  userWhatsapp :: string
  stationId :: nat
  type' :: vtype
  attemptCount :: nat
  lastReading :: "rat option"
  lastConfidence :: "rat option"
  timestamp :: int
  ocrProvider :: provider

text \<open>The columns of a \<open>chargingSessions\<close> row the service reads or writes; times in ms.\<close>

record session =
  startMeterReading :: "string option"
  startTime :: "int option"
  startedAt :: "int option"
  createdAt :: "int option"
  maxPowerUsed :: "rat option"
  verificationStatus :: string
  manualEntryUsed :: bool

record ConsumptionValidation =
  isValid :: bool
  consumption :: "rat option"
  warnings :: "warning list option"
  error :: "error option"

text \<open>Messages handed to the WhatsApp service, by what they say.\<close>

datatype failure_text =
    ErrorText ocr_error
  | CouldNotReadTheDisplay
  | AuthenticationError
  | ServiceTemporarilyUnavailable

datatype wa_message =
    StartPhotoRequest nat
  | EndPhotoRequest nat
  | ReadingConfirmation rat vtype rat
  | EndReadingConfirmation rat "rat option" rat "warning list option"
  | CouldNotReadDisplay failure_text nat
  | LowReadingConfidence rat nat
  | ManualEntryRequired vtype
  | InvalidReading "error option"
  | ValidationFailed "error option"
  | ValidationIssue "error option"

datatype photo_message =
    NotExpectingStartPhoto
  | NotExpectingEndPhoto
  | MaxAttemptsReached
  | FailureMessage failure_text
  | LowConfidenceMessage rat
  | ValidationMessage "error option"
  | ReadingDetected
  | EndReadingDetected

record PhotoResult =
  success :: bool
  reading :: "rat option"
  confidence :: "rat option"
  message :: photo_message
  shouldRetry :: "bool option"

text \<open>
  The service object with what it acts on: the map of verification states, the OCR
  metrics, the session table and the messages sent. \<open>pipelineRuns\<close> and \<open>ocrCalls\<close> are
  not fields of the source: they count the calls of \<open>extractKwhReading\<close> and of
  \<open>performOCR\<close> made so far.
\<close>

record service =
  states :: "string \<rightharpoonup> VerificationState"
  totalAttempts :: nat
  visionAPICallsToday :: nat
  successfulReads :: nat
  averageConfidence :: rat
  sessions :: "string \<rightharpoonup> session"
  sent :: "(string \<times> wa_message) list"
  pipelineRuns :: nat
  ocrCalls :: nat

definition sendMessage :: "service \<Rightarrow> string \<Rightarrow> wa_message \<Rightarrow> service" where
  "sendMessage svc user m = svc\<lparr>sent := sent svc @ [(user, m)]\<rparr>"

definition updateSession :: "service \<Rightarrow> string \<Rightarrow> (session \<Rightarrow> session) \<Rightarrow> service" where
  "updateSession svc sid f =
     (case sessions svc sid of
        None \<Rightarrow> svc
      | Some row \<Rightarrow> svc\<lparr>sessions := (sessions svc)(sid \<mapsto> f row)\<rparr>)"

definition initiateStartVerification ::
  "service \<Rightarrow> string \<Rightarrow> string \<Rightarrow> nat \<Rightarrow> int \<Rightarrow> service" where
  "initiateStartVerification svc user sid station now =
     (let svc1 = svc\<lparr>states := (states svc)(user \<mapsto>
                  \<lparr>sessionId = sid, userWhatsapp = user, stationId = station, type' = Start,
                   attemptCount = 0, lastReading = None, lastConfidence = None,
                   timestamp = now, ocrProvider = Vision\<rparr>)\<rparr>;
          svc2 = updateSession svc1 sid (\<lambda>row. row\<lparr>verificationStatus := ''awaiting_start_photo''\<rparr>)
      in sendMessage svc2 user (StartPhotoRequest 0))"

text \<open>\<open>initiateEndVerification\<close> throws when the session has no start reading (\<open>None\<close>).\<close>

definition hasStartReading :: "session option \<Rightarrow> bool" where
  "hasStartReading row =
     (case row of
        None \<Rightarrow> False
      | Some r \<Rightarrow> (case startMeterReading r of None \<Rightarrow> False | Some s \<Rightarrow> s \<noteq> []))"

definition initiateEndVerification ::
  "service \<Rightarrow> string \<Rightarrow> string \<Rightarrow> nat \<Rightarrow> int \<Rightarrow> service option" where
  "initiateEndVerification svc user sid station now =
     (if \<not> hasStartReading (sessions svc sid) then None
      else
        (let svc1 = svc\<lparr>states := (states svc)(user \<mapsto>
                     \<lparr>sessionId = sid, userWhatsapp = user, stationId = station, type' = End,
                      attemptCount = 0, lastReading = None, lastConfidence = None,
                      timestamp = now, ocrProvider = Vision\<rparr>)\<rparr>;
             svc2 = updateSession svc1 sid (\<lambda>row. row\<lparr>verificationStatus := ''awaiting_end_photo''\<rparr>)
         in Some (sendMessage svc2 user (EndPhotoRequest 0))))"

subsection \<open>\<open>validateConsumption\<close>\<close>

definition startText :: "session \<Rightarrow> string" where
  "startText r = (case startMeterReading r of None \<Rightarrow> [] | Some s \<Rightarrow> s)"

text \<open>\<open>session.startTime || session.startedAt || session.createdAt\<close>.\<close>

definition sessionStartTime :: "session \<Rightarrow> int option" where
  "sessionStartTime r =
     (case startTime r of
        Some t \<Rightarrow> Some t
      | None \<Rightarrow> (case startedAt r of Some t \<Rightarrow> Some t | None \<Rightarrow> createdAt r))"

text \<open>\<open>Math.floor((Date.now() - sessionStartTime.getTime()) / (1000 * 60))\<close>, or 0.\<close>

definition durationMinutes :: "session \<Rightarrow> int \<Rightarrow> int" where
  "durationMinutes r now =
     (case sessionStartTime r of
        Some t \<Rightarrow> (now - t) div (1000 * 60)
      | None \<Rightarrow> 0)"

text \<open>\<open>session.maxPowerUsed || 50\<close>.\<close>

definition chargerPowerKw :: "session \<Rightarrow> rat" where
  "chargerPowerKw r =
     (case maxPowerUsed r of
        None \<Rightarrow> 50
      | Some p \<Rightarrow> if p = 0 then 50 else p)"

text \<open>
  \<open>validateConsumption\<close>, given the row \<open>getSession\<close> finds. A valid result of
  \<open>calculateConsumption\<close> carries a consumption; the branch for a missing one is never
  reached (lemma \<open>calculateConsumption_valid_consumption\<close>).
\<close>

definition validateConsumption :: "session option \<Rightarrow> jsnum \<Rightarrow> int \<Rightarrow> ConsumptionValidation" where
  "validateConsumption row endReading now =
     (case row of
        None \<Rightarrow>
          \<lparr>isValid = False, consumption = None, warnings = None,
           error = Some StartReadingNotFound\<rparr>
      | Some r \<Rightarrow>
          if \<not> hasStartReading row then
            \<lparr>isValid = False, consumption = None, warnings = None,
             error = Some StartReadingNotFound\<rparr>
          else
            (let startReading = parseFloat (startText r);
                 result = calculateConsumption startReading endReading
             in if \<not> valid result then
                  \<lparr>isValid = False, consumption = None, warnings = None,
                   error = outcome.error result\<rparr>
                else if durationMinutes r now < 1 then
                  \<lparr>isValid = True, consumption = consumption_result.consumption result,
                   warnings = Some [DurationTooShort], error = None\<rparr>
                else
                  (case consumption_result.consumption result of
                     None \<Rightarrow>
                       \<lparr>isValid = False, consumption = None, warnings = None, error = None\<rparr>
                   | Some c \<Rightarrow>
                       (let contextValidation =
                              validateConsumptionWithContext c (of_int (durationMinutes r now))
                                (chargerPowerKw r) None
                        in \<lparr>isValid = valid contextValidation,
                             consumption = Some c,
                             warnings = context_result.warnings contextValidation,
                             error = outcome.error contextValidation\<rparr>))))"

subsection \<open>Failure handling\<close>

definition fallbackToManualEntry :: "service \<Rightarrow> string \<Rightarrow> VerificationState \<Rightarrow> service" where
  "fallbackToManualEntry svc user state =
     sendMessage
       (updateSession svc (sessionId state) (\<lambda>row. row\<lparr>manualEntryUsed := True\<rparr>))
       user (ManualEntryRequired (type' state))"

definition errorIncludes :: "ocr_error \<Rightarrow> string \<Rightarrow> bool" where
  "errorIncludes e sub =
     (case e of
        Thrown m \<Rightarrow> includes' m sub
      | VisionApiError m \<Rightarrow> includes' (''Vision API error: '' @ m) sub
      | _ \<Rightarrow> False)"

definition failureText :: "ocr_error option \<Rightarrow> failure_text" where
  "failureText err =
     (case err of
        None \<Rightarrow> CouldNotReadTheDisplay
      | Some e \<Rightarrow>
          if errorIncludes e ''PERMISSION_DENIED'' then AuthenticationError
          else if errorIncludes e ''QUOTA_EXCEEDED'' then ServiceTemporarilyUnavailable
          else ErrorText e)"

definition handleOCRFailure ::
  "service \<Rightarrow> string \<Rightarrow> VerificationState \<Rightarrow> ocr_error option \<Rightarrow> service \<times> PhotoResult" where
  "handleOCRFailure svc user state err =
     (if attemptCount state \<ge> maxAttempts then
        (fallbackToManualEntry svc user state,
         \<lparr>success = False, reading = None, confidence = None,
          message = MaxAttemptsReached, shouldRetry = None\<rparr>)
      else
        (sendMessage svc user (CouldNotReadDisplay (failureText err) (attemptCount state)),
         \<lparr>success = False, reading = None, confidence = None,
          message = FailureMessage (failureText err), shouldRetry = Some True\<rparr>))"

definition handleLowConfidence ::
  "service \<Rightarrow> string \<Rightarrow> VerificationState \<Rightarrow> rat \<Rightarrow> service \<times> PhotoResult" where
  "handleLowConfidence svc user state conf =
     (if attemptCount state \<ge> maxAttempts then
        (fallbackToManualEntry svc user state,
         \<lparr>success = False, reading = None, confidence = None,
          message = MaxAttemptsReached, shouldRetry = None\<rparr>)
      else
        (sendMessage svc user (LowReadingConfidence conf (attemptCount state)),
         \<lparr>success = False, reading = None, confidence = None,
          message = LowConfidenceMessage conf, shouldRetry = Some True\<rparr>))"

subsection \<open>Photo and manual submissions\<close>

text \<open>\<open>!ocrResult.success || !ocrResult.reading\<close>: a missing or zero reading is falsy.\<close>

definition ocrFailed :: "OCRResult \<Rightarrow> bool" where
  "ocrFailed r =
     (\<not> OCRResult.success r \<or>
      (case OCRResult.reading r of None \<Rightarrow> True | Some v \<Rightarrow> v = 0))"

definition orZero :: "rat option \<Rightarrow> rat" where
  "orZero c = (case c of None \<Rightarrow> 0 | Some v \<Rightarrow> v)"

definition handleStartPhoto :: "service \<Rightarrow> string \<Rightarrow> image \<Rightarrow> service \<times> PhotoResult" where
  "handleStartPhoto svc user imageBuffer =
     (case states svc user of
        None \<Rightarrow>
          (svc, \<lparr>success = False, reading = None, confidence = None,
                 message = NotExpectingStartPhoto, shouldRetry = None\<rparr>)
      | Some state0 \<Rightarrow>
          if type' state0 \<noteq> Start then
            (svc, \<lparr>success = False, reading = None, confidence = None,
                   message = NotExpectingStartPhoto, shouldRetry = None\<rparr>)
          else
            (let state = state0\<lparr>attemptCount := attemptCount state0 + 1\<rparr>;
                 svc1 = svc\<lparr>states := (states svc)(user \<mapsto> state),
                            totalAttempts := totalAttempts svc + 1,
                            visionAPICallsToday := visionAPICallsToday svc + 1\<rparr>;
                 run = extractKwhReading imageBuffer;
                 ocrResult = snd run;
                 svc2 = svc1\<lparr>pipelineRuns := pipelineRuns svc1 + 1,
                             ocrCalls := ocrCalls svc1 + length (fst run)\<rparr>
             in if ocrFailed ocrResult then
                  handleOCRFailure svc2 user state (OCRResult.error ocrResult)
                else
                  (let conf = orZero (OCRResult.confidence ocrResult) in
                   if conf < MIN_OCR_CONFIDENCE then handleLowConfidence svc2 user state conf
                   else
                     (let svc3 = svc2\<lparr>successfulReads := successfulReads svc2 + 1,
                                      averageConfidence := (averageConfidence svc2 + conf) / 2,
                                      states := (states svc2)(user \<mapsto>
                                         state\<lparr>lastReading := OCRResult.reading ocrResult,
                                               lastConfidence := Some conf\<rparr>)\<rparr>
                      in (sendMessage svc3 user
                            (ReadingConfirmation (orZero (OCRResult.reading ocrResult)) Start conf),
                          \<lparr>success = True, reading = OCRResult.reading ocrResult,
                           confidence = Some conf, message = ReadingDetected,
                           shouldRetry = None\<rparr>)))))"

definition handleEndPhoto ::
  "service \<Rightarrow> string \<Rightarrow> image \<Rightarrow> int \<Rightarrow> service \<times> PhotoResult" where
  "handleEndPhoto svc user imageBuffer now =
     (case states svc user of
        None \<Rightarrow>
          (svc, \<lparr>success = False, reading = None, confidence = None,
                 message = NotExpectingEndPhoto, shouldRetry = None\<rparr>)
      | Some state0 \<Rightarrow>
          if type' state0 \<noteq> End then
            (svc, \<lparr>success = False, reading = None, confidence = None,
                   message = NotExpectingEndPhoto, shouldRetry = None\<rparr>)
          else
            (let state = state0\<lparr>attemptCount := attemptCount state0 + 1\<rparr>;
                 svc1 = svc\<lparr>states := (states svc)(user \<mapsto> state),
                            totalAttempts := totalAttempts svc + 1,
                            visionAPICallsToday := visionAPICallsToday svc + 1\<rparr>;
                 run = extractKwhReading imageBuffer;
                 ocrResult = snd run;
                 svc2 = svc1\<lparr>pipelineRuns := pipelineRuns svc1 + 1,
                             ocrCalls := ocrCalls svc1 + length (fst run)\<rparr>
             in if ocrFailed ocrResult then
                  handleOCRFailure svc2 user state (OCRResult.error ocrResult)
                else
                  (let conf = orZero (OCRResult.confidence ocrResult) in
                   if conf < MIN_OCR_CONFIDENCE then handleLowConfidence svc2 user state conf
                   else
                     (let validation =
                            validateConsumption (sessions svc2 (sessionId state))
                              (Fin (orZero (OCRResult.reading ocrResult))) now
                      in if \<not> isValid validation then
                           (sendMessage svc2 user
                              (ValidationIssue (ConsumptionValidation.error validation)),
                            \<lparr>success = False, reading = None, confidence = None,
                             message = ValidationMessage (ConsumptionValidation.error validation),
                             shouldRetry = Some True\<rparr>)
                         else
                           (let svc3 = svc2\<lparr>successfulReads := successfulReads svc2 + 1,
                                            averageConfidence := (averageConfidence svc2 + conf) / 2,
                                            states := (states svc2)(user \<mapsto>
                                               state\<lparr>lastReading := OCRResult.reading ocrResult,
                                                     lastConfidence := Some conf\<rparr>)\<rparr>
                            in (sendMessage svc3 user
                                  (EndReadingConfirmation (orZero (OCRResult.reading ocrResult))
                                     (ConsumptionValidation.consumption validation) conf
                                     (ConsumptionValidation.warnings validation)),
                                \<lparr>success = True, reading = OCRResult.reading ocrResult,
                                 confidence = Some conf, message = EndReadingDetected,
                                 shouldRetry = None\<rparr>))))))"

text \<open>
  \<open>handleManualEntry\<close>. A reading that passed \<open>validateReading\<close> is finite; the other
  branch of the last case distinction is never reached.
\<close>

definition handleManualEntry :: "service \<Rightarrow> string \<Rightarrow> string \<Rightarrow> int \<Rightarrow> service \<times> bool" where
  "handleManualEntry svc user input now =
     (case states svc user of
        None \<Rightarrow> (svc, False)
      | Some state \<Rightarrow>
          (let r = parseFloat (trim input);
               validation = validateReading r
           in if \<not> valid validation then
                (sendMessage svc user (InvalidReading (outcome.error validation)), False)
              else
                (let consumptionValidation =
                       validateConsumption (sessions svc (sessionId state)) r now
                 in if type' state = End \<and> \<not> isValid consumptionValidation then
                      (sendMessage svc user
                         (ValidationFailed (ConsumptionValidation.error consumptionValidation)),
                       False)
                    else
                      (case r of
                         Fin v \<Rightarrow>
                           (sendMessage
                              (svc\<lparr>states := (states svc)(user \<mapsto>
                                      state\<lparr>lastReading := Some v, lastConfidence := Some 0,
                                            ocrProvider := Manual\<rparr>)\<rparr>)
                              user (ReadingConfirmation v (type' state) 0),
                            True)
                       | _ \<Rightarrow> (svc, False)))))"

section \<open>Notions the properties are stated with\<close>

text \<open>
  The order the specification gives for ranking: descending score, ties broken by
  descending value.
\<close>

definition ranksBefore :: "candidate \<Rightarrow> candidate \<Rightarrow> bool" where
  "ranksBefore a b \<longleftrightarrow>
     candidate.confidence a > candidate.confidence b
     \<or> (candidate.confidence a = candidate.confidence b \<and> value' a \<ge> value' b)"


section \<open>Example inputs\<close>

text \<open>An attempt as \<open>performOCR\<close> would report it with text and the given confidence.\<close>

definition attemptWith :: "rat \<Rightarrow> ocr_attempt" where
  "attemptWith c = \<lparr>ocr_attempt.success = True, ocr_attempt.error = None, ocr_attempt.confidence = Some c, text' = Some ''12345''\<rparr>"

definition image_55_58_59 :: image where
  "image_55_58_59 = \<lparr>preprocess = (\<lambda>s. None),
     ocr = (\<lambda>s. case s of Standard \<Rightarrow> attemptWith 55 | Aggressive \<Rightarrow> attemptWith 58
                 | AdaptiveThreshold \<Rightarrow> attemptWith 59)\<rparr>"

text \<open>An image on which the Vision service finds no text, whatever the preprocessing.\<close>

definition noTextImage :: image where
  "noTextImage = imageOf (\<lambda>s. None) (\<lambda>s. VisionResult None)"

text \<open>
  A service with no state; a user for whom a start verification has just been requested;
  a legible photo of a meter; and the service after that user has sent three photos in
  which no text is found.
\<close>

definition emptyService :: service where
  "emptyService = \<lparr>states = Map.empty, totalAttempts = 0, visionAPICallsToday = 0,
     successfulReads = 0, averageConfidence = 0, sessions = Map.empty, sent = [],
     pipelineRuns = 0, ocrCalls = 0\<rparr>"

definition awaitingStart :: service where
  "awaitingStart = initiateStartVerification emptyService ''user'' ''session'' 1 0"

definition meterImage :: image where
  "meterImage = imageOf (\<lambda>s. None) (\<lambda>s. VisionResult (Some
     [\<lparr>description = Some ''METER: 1245.8 KWH'', vertices = None\<rparr>,
      \<lparr>description = Some ''METER:'', vertices = Some 4\<rparr>,
      \<lparr>description = Some ''1245.8'', vertices = Some 4\<rparr>,
      \<lparr>description = Some ''KWH'', vertices = Some 4\<rparr>]))"



text \<open>Two candidates of one text.\<close>

definition candidate77 :: candidate where
  "candidate77 = \<lparr>value' = 77, confidence = 80, position = 5, context' = ''05 X 77 Y 300.5''\<rparr>"

definition candidate300 :: candidate where
  "candidate300 = \<lparr>value' = 300.5, confidence = 100, position = 10, context' = ''05 X 77 Y 300.5''\<rparr>"

section \<open>Properties of the reading validator\<close>


lemma fracDigits_length:
  "0 \<le> f \<Longrightarrow> f < 1 \<Longrightarrow> k < n \<Longrightarrow>
     length (fracDigits n f) \<le> k \<longleftrightarrow> f * 10 ^ k \<in> \<int>"
proof (induction n arbitrary: f k)
  case 0
  then show ?case by simp
next
  case (Suc n)
  show ?case
  proof (cases "f = 0")
    case True
    then show ?thesis by simp
  next
    case False
    define d where "d = \<lfloor>f * 10\<rfloor>"
    define g where "g = f * 10 - of_int d"
    have g0: "0 \<le> g" and g1: "g < 1"
      unfolding g_def d_def by linarith+
    show ?thesis
    proof (cases k)
      case 0
      have "f \<notin> \<int>"
      proof
        assume "f \<in> \<int>"
        then obtain z :: int where z: "f = of_int z" by (auto elim: Ints_cases)
        with Suc.prems False have "0 < z" "z < 1" by simp_all
        then show False by simp
      qed
      with False 0 show ?thesis by simp
    next
      case (Suc j)
      with Suc.prems have jn: "j < n" by simp
      have "length (fracDigits n g) \<le> j \<longleftrightarrow> g * 10 ^ j \<in> \<int>"
        using Suc.IH [OF g0 g1 jn] .
      moreover have "g * 10 ^ j \<in> \<int> \<longleftrightarrow> f * 10 ^ k \<in> \<int>"
      proof -
        have eq: "f * 10 ^ k = g * 10 ^ j + of_int (d * 10 ^ j)"
          unfolding g_def Suc by (simp add: algebra_simps)
        show ?thesis
        proof
          assume "g * 10 ^ j \<in> \<int>"
          then show "f * 10 ^ k \<in> \<int>" unfolding eq by (intro Ints_add Ints_of_int)
        next
          assume a: "f * 10 ^ k \<in> \<int>"
          have "g * 10 ^ j = f * 10 ^ k - of_int (d * 10 ^ j)" unfolding eq by simp
          with a show "g * 10 ^ j \<in> \<int>" by (simp only: Ints_diff Ints_of_int)
        qed
      qed
      ultimately show ?thesis
        using False Suc by (simp add: d_def g_def)
    qed
  qed
qed

lemma toStringFraction_le_3:
  assumes "0 \<le> x"
  shows "length (toStringFraction x) \<le> 3 \<longleftrightarrow> x * 1000 \<in> \<int>"
proof -
  define f where "f = x - of_int \<lfloor>x\<rfloor>"
  have f0: "0 \<le> f" and f1: "f < 1" unfolding f_def by linarith+
  have "length (fracDigits 17 f) \<le> 3 \<longleftrightarrow> f * 10 ^ 3 \<in> \<int>"
    by (rule fracDigits_length [OF f0 f1]) simp
  moreover have "f * 10 ^ 3 \<in> \<int> \<longleftrightarrow> x * 1000 \<in> \<int>"
  proof -
    have eq: "x * 1000 = f * 10 ^ 3 + of_int (\<lfloor>x\<rfloor> * 1000)"
      unfolding f_def by (simp add: algebra_simps)
    show ?thesis
    proof
      assume "f * 10 ^ 3 \<in> \<int>"
      then show "x * 1000 \<in> \<int>" unfolding eq by (intro Ints_add Ints_of_int)
    next
      assume a: "x * 1000 \<in> \<int>"
      have "f * 10 ^ 3 = x * 1000 - of_int (\<lfloor>x\<rfloor> * 1000)" unfolding eq by simp
      with a show "f * 10 ^ 3 \<in> \<int>" by (simp only: Ints_diff Ints_of_int)
    qed
  qed
  ultimately show ?thesis
    using assms by (simp add: toStringFraction_def f_def)
qed

text \<open>
  C1. For every number \<open>r\<close>, \<open>validateReading r\<close> is valid exactly when \<open>r\<close> is finite,
  positive, at least the configured minimum 10, at most the configured maximum 999999 and
  has at most 3 decimal places (\<open>r * 1000\<close> is an integer); in every other case the
  result is invalid and carries an error.
\<close>

theorem validateReading_valid_iff:
  "(valid (validateReading r) \<longleftrightarrow>
      (\<exists>x. r = Fin x \<and> 0 < x \<and> 10 \<le> x \<and> x \<le> 999999 \<and> x * 1000 \<in> \<int>))
   \<and> (\<not> valid (validateReading r) \<longrightarrow> outcome.error (validateReading r) \<noteq> None)"
proof (cases r)
  case (Fin x)
  show ?thesis
  proof (cases "0 < x")
    case True
    then have "length (toStringFraction x) \<le> 3 \<longleftrightarrow> x * 1000 \<in> \<int>"
      by (intro toStringFraction_le_3) simp
    then show ?thesis
      using True Fin
      by (auto simp: fail_def ok_def VALID_RANGE_min_def VALID_RANGE_max_def
          MAX_DECIMAL_PLACES_def Let_def not_less)
  next
    case False
    then show ?thesis using Fin by (simp add: fail_def)
  qed
qed (simp_all add: fail_def)

theorem validateReading_valid_iff_witness:
  "valid (validateReading (Fin 1245.8)) \<and> \<not> valid (validateReading (Fin 5))
   \<and> outcome.error (validateReading (Fin 5)) \<noteq> None"
proof -
  have "(1245.8 :: rat) * 1000 = of_int 1245800" by simp
  then have "(1245.8 :: rat) * 1000 \<in> \<int>" by (simp only: Ints_of_int)
  then have "\<exists>x. Fin 1245.8 = Fin x \<and> 0 < x \<and> 10 \<le> x \<and> x \<le> 999999 \<and> x * 1000 \<in> \<int>"
    by (intro exI [of _ "1245.8"]) simp
  then have "valid (validateReading (Fin 1245.8))"
    by (rule iffD2 [OF conjunct1 [OF validateReading_valid_iff]])
  moreover have "\<not> (\<exists>x. Fin 5 = Fin x \<and> 0 < x \<and> 10 \<le> x \<and> x \<le> 999999 \<and> x * 1000 \<in> \<int>)"
    by simp
  then have n: "\<not> valid (validateReading (Fin 5))"
    unfolding conjunct1 [OF validateReading_valid_iff] .
  moreover have "outcome.error (validateReading (Fin 5)) \<noteq> None"
    using conjunct2 [OF validateReading_valid_iff [of "Fin 5"]] n by (rule mp)
  ultimately show ?thesis by blast
qed







section \<open>Properties of the confidence aggregator\<close>

lemma wordConfidence_bounds: "70 \<le> wordConfidence d \<and> wordConfidence d \<le> 100"
  by (simp add: wordConfidence_def Let_def)

lemma sum_wordConfidence_bounds:
  "70 * length ws \<le> sum_list (map wordConfidence ws)
   \<and> sum_list (map wordConfidence ws) \<le> 100 * length ws"
proof (induction ws)
  case Nil
  show ?case by simp
next
  case (Cons d ds)
  with wordConfidence_bounds [of d] show ?case by simp
qed

lemma avgConfidence_bounds: "70 \<le> avgConfidence ws \<and> avgConfidence ws \<le> 100"
proof (cases "ws = []")
  case True
  then show ?thesis by (simp add: avgConfidence_def)
next
  case False
  then have n: "0 < (of_nat (length ws) :: rat)" by simp
  from sum_wordConfidence_bounds [of ws]
  have "(of_nat (70 * length ws) :: rat) \<le> of_nat (sum_list (map wordConfidence ws))"
    and "(of_nat (sum_list (map wordConfidence ws)) :: rat) \<le> of_nat (100 * length ws)"
    by (simp_all only: of_nat_le_iff)
  then have "70 * of_nat (length ws) \<le> (of_nat (sum_list (map wordConfidence ws)) :: rat)"
    and "(of_nat (sum_list (map wordConfidence ws)) :: rat) \<le> 100 * of_nat (length ws)"
    by simp_all
  with n have "70 \<le> (of_nat (sum_list (map wordConfidence ws)) :: rat) / of_nat (length ws)"
    and "(of_nat (sum_list (map wordConfidence ws)) :: rat) / of_nat (length ws) \<le> 100"
    by (simp_all add: pos_le_divide_eq pos_divide_le_eq)
  with False show ?thesis by (simp add: avgConfidence_def Let_def)
qed

text \<open>
  C10. Whenever text was detected, each per-token confidence lies in [70, 100] (base 70
  plus bonuses 15, 10 and 5), so the average, which is 70 when there is no per-token
  detection, lies in [70, 100] too; it is never below half the acceptance threshold
  (30), and \<open>performOCR\<close> succeeds: the 'Very low confidence OCR result' branch is not
  taken.
\<close>

theorem performOCR_text_detected:
  "70 \<le> wordConfidence d \<and> wordConfidence d \<le> 100
   \<and> avgConfidence [] = 70
   \<and> 70 \<le> avgConfidence words \<and> avgConfidence words \<le> 100
   \<and> MIN_OCR_CONFIDENCE * (1 / 2) = 30
   \<and> \<not> avgConfidence words < MIN_OCR_CONFIDENCE * (1 / 2)
   \<and> ocr_attempt.confidence (performOCR (VisionResult (Some (d0 # words)))) = Some (avgConfidence words)
   \<and> ocr_attempt.success (performOCR (VisionResult (Some (d0 # words))))
   \<and> ocr_attempt.error (performOCR (VisionResult (Some (d0 # words)))) \<noteq> Some VeryLowConfidence"
proof -
  have a: "\<not> avgConfidence words < MIN_OCR_CONFIDENCE * (1 / 2)"
    using avgConfidence_bounds [of words] by (simp add: MIN_OCR_CONFIDENCE_def)
  have "avgConfidence [] = 70" by (simp add: avgConfidence_def)
  moreover have "MIN_OCR_CONFIDENCE * (1 / 2) = 30" by (simp add: MIN_OCR_CONFIDENCE_def)
  moreover from a have "ocr_attempt.confidence (performOCR (VisionResult (Some (d0 # words)))) = Some (avgConfidence words)"
    "ocr_attempt.success (performOCR (VisionResult (Some (d0 # words))))"
    "ocr_attempt.error (performOCR (VisionResult (Some (d0 # words)))) \<noteq> Some VeryLowConfidence"
    by (simp_all add: Let_def)
  ultimately show ?thesis
    using wordConfidence_bounds [of d] avgConfidence_bounds [of words] a by blast
qed

theorem performOCR_text_detected_witness:
  "ocr_attempt.success (performOCR (VisionResult (Some
      [\<lparr>description = Some ''METER: 1245.8 KWH'', vertices = None\<rparr>,
       \<lparr>description = Some ''12 kWh'', vertices = Some 4\<rparr>])))
   \<and> wordConfidence \<lparr>description = Some ''12 kWh'', vertices = Some 4\<rparr> = 100"
proof -
  have "wordConfidence \<lparr>description = Some ''12 kWh'', vertices = Some 4\<rparr> = 100"
    by code_simp
  then show ?thesis
    using performOCR_text_detected [of "\<lparr>description = Some ''12 kWh'', vertices = Some 4\<rparr>"
      "[\<lparr>description = Some ''12 kWh'', vertices = Some 4\<rparr>]"
      "\<lparr>description = Some ''METER: 1245.8 KWH'', vertices = None\<rparr>"]
    by blast
qed


section \<open>Properties of the escalation\<close>

lemma runStrategies_calls:
  "length (fst (runStrategies img)) \<le> 3"
  by (simp add: runStrategies_def Let_def split: option.splits)

lemma extractKwhReading_calls: "fst (extractKwhReading img) = fst (runStrategies img)"
  by (simp add: extractKwhReading_def split: prod.splits sum.splits)

lemma runStrategies_ladder:
  assumes "\<And>s. preprocess img s = None"
  shows "runStrategies img =
    (if lowConfidence (ocr img Standard) then
       (if lowConfidence (ocr img Aggressive)
        then ([Standard, Aggressive, AdaptiveThreshold], Inr (ocr img AdaptiveThreshold))
        else ([Standard, Aggressive], Inr (ocr img Aggressive)))
     else ([Standard], Inr (ocr img Standard)))"
  using assms by (simp add: runStrategies_def Let_def)

text \<open>
  C4 at the input where no text is detected: \<open>performOCR\<close> reports confidence 0, which is
  below the threshold 60, and yet only the standard strategy is tried, since the guard
  \<open>ocrResult.confidence && \<dots>\<close> is false for 0.
\<close>

theorem extractKwhReading_no_text_not_escalated:
  "ocr_attempt.confidence (ocr noTextImage Standard) = Some 0
   \<and> (0 :: rat) < MIN_OCR_CONFIDENCE
   \<and> fst (extractKwhReading noTextImage) = [Standard]"
  by (simp add: noTextImage_def imageOf_def extractKwhReading_def runStrategies_def
      lowConfidence_def MIN_OCR_CONFIDENCE_def)


text \<open>
  No result of \<open>performOCR\<close> passes the guard: its confidence is missing (the call
  threw), 0 (no text) or at least 70 (text). On the results of \<open>performOCR\<close> the
  escalation therefore never goes beyond the standard strategy.
\<close>

lemma performOCR_never_lowConfidence: "\<not> lowConfidence (performOCR v)"
proof (cases v)
  case (VisionThrew m)
  then show ?thesis by (simp add: lowConfidence_def)
next
  case (VisionResult ds)
  show ?thesis
  proof (cases ds)
    case None
    with VisionResult show ?thesis by (simp add: lowConfidence_def)
  next
    case (Some l)
    show ?thesis
    proof (cases l)
      case Nil
      with VisionResult Some show ?thesis by (simp add: lowConfidence_def)
    next
      case (Cons d0 ws)
      with VisionResult Some avgConfidence_bounds [of ws] show ?thesis
        by (simp add: lowConfidence_def Let_def MIN_OCR_CONFIDENCE_def)
    qed
  qed
qed

lemma imageOf_never_escalates:
  "length (fst (extractKwhReading (imageOf pre vision))) \<le> 1"
  by (simp add: extractKwhReading_calls runStrategies_def imageOf_def
      performOCR_never_lowConfidence Let_def split: option.splits)

section \<open>Properties of the verification service\<close>

lemma sendMessage_fields [simp]:
  "states (sendMessage svc u m) = states svc"
  "pipelineRuns (sendMessage svc u m) = pipelineRuns svc"
  "ocrCalls (sendMessage svc u m) = ocrCalls svc"
  "sent (sendMessage svc u m) = sent svc @ [(u, m)]"
  by (simp_all add: sendMessage_def)

lemma updateSession_fields [simp]:
  "states (updateSession svc sid f) = states svc"
  "pipelineRuns (updateSession svc sid f) = pipelineRuns svc"
  "ocrCalls (updateSession svc sid f) = ocrCalls svc"
  "sent (updateSession svc sid f) = sent svc"
  by (simp_all add: updateSession_def split: option.splits)

lemma fallbackToManualEntry_fields [simp]:
  "states (fallbackToManualEntry svc u st) = states svc"
  "pipelineRuns (fallbackToManualEntry svc u st) = pipelineRuns svc"
  "ocrCalls (fallbackToManualEntry svc u st) = ocrCalls svc"
  "sent (fallbackToManualEntry svc u st) = sent svc @ [(u, ManualEntryRequired (type' st))]"
  by (simp_all add: fallbackToManualEntry_def)

lemma handleOCRFailure_fields [simp]:
  "states (fst (handleOCRFailure svc u st e)) = states svc"
  "pipelineRuns (fst (handleOCRFailure svc u st e)) = pipelineRuns svc"
  "ocrCalls (fst (handleOCRFailure svc u st e)) = ocrCalls svc"
  by (simp_all add: handleOCRFailure_def)

lemma handleLowConfidence_fields [simp]:
  "states (fst (handleLowConfidence svc u st c)) = states svc"
  "pipelineRuns (fst (handleLowConfidence svc u st c)) = pipelineRuns svc"
  "ocrCalls (fst (handleLowConfidence svc u st c)) = ocrCalls svc"
  by (simp_all add: handleLowConfidence_def)



lemma handleStartPhoto_attemptCount:
  assumes "states svc user = Some st" "type' st = Start"
  shows "map_option attemptCount (states (fst (handleStartPhoto svc user img)) user)
           = Some (attemptCount st + 1)"
  using assms by (simp add: handleStartPhoto_def Let_def)

lemma handleEndPhoto_attemptCount:
  assumes "states svc user = Some st" "type' st = End"
  shows "map_option attemptCount (states (fst (handleEndPhoto svc user img now)) user)
           = Some (attemptCount st + 1)"
  using assms by (simp add: handleEndPhoto_def Let_def)

lemma handleManualEntry_attemptCount:
  "map_option attemptCount (states (fst (handleManualEntry svc user input now)) user)
     = map_option attemptCount (states svc user)"
  by (simp add: handleManualEntry_def Let_def split: option.splits jsnum.splits)


text \<open>
  C9, as the code has it. \<open>attemptCount\<close> is 0 in a state just created; a photo handled
  for a state of its kind (a start photo in a start verification, an end photo in an end
  verification) increments it by exactly 1, whatever the OCR outcome; a manual text
  entry leaves it unchanged.
\<close>

theorem attemptCount_evolution:
  "map_option attemptCount (states (initiateStartVerification svc user sid station now) user) = Some 0
   \<and> (\<forall>svc'. initiateEndVerification svc user sid station now = Some svc'
          \<longrightarrow> map_option attemptCount (states svc' user) = Some 0)
   \<and> (states svc user = Some st \<and> type' st = Start
        \<longrightarrow> map_option attemptCount (states (fst (handleStartPhoto svc user img)) user)
              = Some (attemptCount st + 1))
   \<and> (states svc user = Some st \<and> type' st = End
        \<longrightarrow> map_option attemptCount (states (fst (handleEndPhoto svc user img now)) user)
              = Some (attemptCount st + 1))
   \<and> map_option attemptCount (states (fst (handleManualEntry svc user input now)) user)
        = map_option attemptCount (states svc user)"
proof (intro conjI allI impI)
  show "map_option attemptCount
      (states (initiateStartVerification svc user sid station now) user) = Some 0"
    by (simp add: initiateStartVerification_def Let_def)
  show "map_option attemptCount (states svc' user) = Some 0"
    if "initiateEndVerification svc user sid station now = Some svc'" for svc'
    using that by (auto simp: initiateEndVerification_def Let_def split: if_splits)
  show "map_option attemptCount (states (fst (handleStartPhoto svc user img)) user)
      = Some (attemptCount st + 1)" if "states svc user = Some st \<and> type' st = Start"
    using that by (simp add: handleStartPhoto_attemptCount)
  show "map_option attemptCount (states (fst (handleEndPhoto svc user img now)) user)
      = Some (attemptCount st + 1)" if "states svc user = Some st \<and> type' st = End"
    using that by (simp add: handleEndPhoto_attemptCount)
  show "map_option attemptCount (states (fst (handleManualEntry svc user input now)) user)
        = map_option attemptCount (states svc user)"
    by (rule handleManualEntry_attemptCount)
qed

lemma awaitingStart_state:
  "states awaitingStart ''user'' =
     Some \<lparr>sessionId = ''session'', userWhatsapp = ''user'', stationId = 1, type' = Start,
           attemptCount = 0, lastReading = None, lastConfidence = None,
           timestamp = 0, ocrProvider = Vision\<rparr>"
  by (simp add: awaitingStart_def initiateStartVerification_def emptyService_def Let_def)

theorem attemptCount_evolution_witness:
  "map_option attemptCount (states awaitingStart ''user'') = Some 0
   \<and> map_option attemptCount (states (fst (handleStartPhoto awaitingStart ''user'' meterImage)) ''user'') = Some 1
   \<and> map_option attemptCount
        (states (fst (handleManualEntry awaitingStart ''user'' ''1245.8'' 0)) ''user'') = Some 0"
proof -
  define st0 where "st0 = \<lparr>sessionId = ''session'', userWhatsapp = ''user'', stationId = 1,
     type' = Start, attemptCount = 0, lastReading = None, lastConfidence = None,
     timestamp = 0, ocrProvider = Vision\<rparr>"
  have st: "states awaitingStart ''user'' = Some st0 \<and> type' st0 = Start"
    using awaitingStart_state by (simp add: st0_def)
  note ev = attemptCount_evolution [where svc = awaitingStart and user = "''user''"
      and st = st0 and img = meterImage and input = "''1245.8''" and now = 0]
  have a: "map_option attemptCount (states awaitingStart ''user'') = Some 0"
    using st by (simp add: st0_def)
  from ev st have "map_option attemptCount
      (states (fst (handleStartPhoto awaitingStart ''user'' meterImage)) ''user'')
      = Some (attemptCount st0 + 1)" by blast
  then have b: "map_option attemptCount
      (states (fst (handleStartPhoto awaitingStart ''user'' meterImage)) ''user'') = Some 1"
    by (simp add: st0_def)
  from ev have "map_option attemptCount
      (states (fst (handleManualEntry awaitingStart ''user'' ''1245.8'' 0)) ''user'')
      = map_option attemptCount (states awaitingStart ''user'')" by blast
  with a b show ?thesis by simp
qed

lemma parseFloat_1245_8: "parseFloat (trim ''1245.8'') = Fin (6229 / 5)"
  by code_simp

lemma validateReading_1245_8: "valid (validateReading (Fin (6229 / 5)))"
  by code_simp

text \<open>
  C9 as stated fails: an accepted manual entry for a freshly created state leaves
  \<open>attemptCount\<close> at 0.
\<close>

theorem manual_entry_keeps_attemptCount:
  "snd (handleManualEntry awaitingStart ''user'' ''1245.8'' 0)
   \<and> map_option attemptCount (states awaitingStart ''user'') = Some 0
   \<and> map_option attemptCount
        (states (fst (handleManualEntry awaitingStart ''user'' ''1245.8'' 0)) ''user'') = Some 0"
proof -
  have a: "map_option attemptCount (states awaitingStart ''user'') = Some 0"
    by (simp add: awaitingStart_state)
  have "snd (handleManualEntry awaitingStart ''user'' ''1245.8'' 0)"
    by (simp add: handleManualEntry_def awaitingStart_state parseFloat_1245_8
        validateReading_1245_8 Let_def del: validateReading.simps)
  with a show ?thesis by (simp only: handleManualEntry_attemptCount simp_thms)
qed



lemma handleStartPhoto_calls:
  assumes "states svc user = Some st" "type' st = Start"
  shows "pipelineRuns (fst (handleStartPhoto svc user img)) = pipelineRuns svc + 1"
    and "ocrCalls (fst (handleStartPhoto svc user img))
           = ocrCalls svc + length (fst (extractKwhReading img))"
  using assms by (simp_all add: handleStartPhoto_def Let_def)










section \<open>Properties of the context validation\<close>










section \<open>Properties of the candidate extractor\<close>

subsection \<open>Ranking\<close>

lemma compareCandidates_le: "compareCandidates a b \<le> 0 \<longleftrightarrow> ranksBefore a b"
  by (auto simp: compareCandidates_def ranksBefore_def)

lemma ranksBefore_total: "ranksBefore a b \<or> ranksBefore b a"
  by (auto simp: ranksBefore_def)

lemma ranksBefore_trans: "ranksBefore a b \<Longrightarrow> ranksBefore b c \<Longrightarrow> ranksBefore a c"
  by (auto simp: ranksBefore_def)

lemma ranksBefore_antisym:
  "ranksBefore a b \<Longrightarrow> ranksBefore b a \<Longrightarrow>
     candidate.confidence a = candidate.confidence b \<and> value' a = value' b"
  by (auto simp: ranksBefore_def)

lemma mset_insertBy: "mset (insertBy cmp x xs) = add_mset x (mset xs)"
  by (induction xs) simp_all

lemma mset_sortBy: "mset (sortBy cmp xs) = mset xs"
  by (induction xs) (simp_all add: sortBy_def mset_insertBy)

lemma set_insertBy: "set (insertBy cmp x xs) = insert x (set xs)"
  by (induction xs) auto

lemma sorted_insertBy:
  "sorted_wrt ranksBefore xs \<Longrightarrow> sorted_wrt ranksBefore (insertBy compareCandidates x xs)"
proof (induction xs)
  case Nil
  show ?case by simp
next
  case (Cons y ys)
  show ?case
  proof (cases "ranksBefore x y")
    case True
    with Cons.prems have "\<forall>z \<in> set ys. ranksBefore x z"
      by (auto intro: ranksBefore_trans)
    with True Cons.prems show ?thesis by (simp add: compareCandidates_le)
  next
    case False
    then have "ranksBefore y x" using ranksBefore_total by blast
    with False Cons show ?thesis
      by (auto simp: compareCandidates_le set_insertBy)
  qed
qed

lemma sorted_rankCandidates: "sorted_wrt ranksBefore (rankCandidates cs)"
  unfolding rankCandidates_def
  by (induction cs) (simp_all add: sortBy_def sorted_insertBy)

lemma insertBy_first:
  "\<forall>y \<in> set xs. ranksBefore x y \<Longrightarrow> insertBy compareCandidates x xs = x # xs"
  by (cases xs) (simp_all add: compareCandidates_le)

lemma rankCandidates_sorted_id:
  "sorted_wrt ranksBefore cs \<Longrightarrow> rankCandidates cs = cs"
  unfolding rankCandidates_def
  by (induction cs) (simp_all add: sortBy_def insertBy_first)

lemma rankCandidates_Nil_iff: "rankCandidates cs = [] \<longleftrightarrow> cs = []"
  using mset_sortBy [of compareCandidates cs] unfolding rankCandidates_def
  by (metis mset_zero_iff)

lemma head_is_best:
  assumes "sorted_wrt ranksBefore (x # xs)" "c \<in> set (x # xs)"
  shows "ranksBefore x c"
  using assms by (auto simp: ranksBefore_def)

lemma rank_head_key:
  assumes "mset cs = mset cs'" "rankCandidates cs = x # xs" "rankCandidates cs' = y # ys"
  shows "value' x = value' y"
proof -
  have s: "set (rankCandidates cs) = set (rankCandidates cs')"
    using assms(1) mset_sortBy [of compareCandidates] unfolding rankCandidates_def
    by (metis set_mset_mset)
  have yx: "y \<in> set (x # xs)" and xy: "x \<in> set (y # ys)"
    using s unfolding assms(2,3) by auto
  have "ranksBefore x y"
    using sorted_rankCandidates [of cs] unfolding assms(2) by (rule head_is_best [OF _ yx])
  moreover have "ranksBefore y x"
    using sorted_rankCandidates [of cs'] unfolding assms(3) by (rule head_is_best [OF _ xy])
  ultimately show ?thesis using ranksBefore_antisym by blast
qed

lemma selectCandidate_many:
  "2 \<le> length cs \<Longrightarrow>
     selectCandidate cs = (case rankCandidates cs of [] \<Rightarrow> None | best # _ \<Rightarrow> Some (value' best))"
  by (cases cs; cases "tl cs") (auto simp: selectCandidate_def)

lemma selectCandidate_perm:
  assumes "mset cs = mset cs'"
  shows "selectCandidate cs = selectCandidate cs'"
proof -
  from assms have len: "length cs = length cs'" by (metis size_mset)
  consider "cs = []" | c where "cs = [c]" | "2 \<le> length cs"
    by (cases cs; cases "tl cs") auto
  then show ?thesis
  proof cases
    case 1
    with assms show ?thesis by simp
  next
    case 2
    with assms have "cs' = [c]" by (metis mset_single_iff_right mset.simps(1) mset.simps(2))
    with 2 show ?thesis by simp
  next
    case 3
    with len have l2: "2 \<le> length cs'" by simp
    from 3 l2 have "cs \<noteq> []" "cs' \<noteq> []" by auto
    then obtain x xs y ys where r: "rankCandidates cs = x # xs" "rankCandidates cs' = y # ys"
      by (metis rankCandidates_Nil_iff list.exhaust)
    with rank_head_key [OF assms r] show ?thesis
      by (simp add: selectCandidate_many 3 l2)
  qed
qed

text \<open>
  C8. \<open>rankCandidates\<close> sorts by descending score with ties broken by descending value
  and only reorders the candidates; ranking a ranked list changes nothing, so selecting
  from the candidates of a cleaned text again gives the same reading; and the selected
  reading does not depend on the order in which the same candidates are presented.
\<close>

theorem rankCandidates_deterministic:
  "sorted_wrt (\<lambda>a b. candidate.confidence a > candidate.confidence b
         \<or> (candidate.confidence a = candidate.confidence b \<and> value' a \<ge> value' b))
      (rankCandidates cs)
   \<and> mset (rankCandidates cs) = mset cs
   \<and> rankCandidates (rankCandidates cs) = rankCandidates cs
   \<and> selectCandidate (rankCandidates cs) = selectCandidate cs
   \<and> selectCandidate (rankCandidates (extractNumberCandidates clean))
       = selectCandidate (extractNumberCandidates clean)
   \<and> (mset cs = mset cs' \<longrightarrow> selectCandidate cs = selectCandidate cs')"
proof (intro conjI impI)
  show "sorted_wrt (\<lambda>a b. candidate.confidence a > candidate.confidence b
         \<or> (candidate.confidence a = candidate.confidence b \<and> value' a \<ge> value' b))
      (rankCandidates cs)"
    using sorted_rankCandidates [of cs] unfolding ranksBefore_def [abs_def] .
  show m: "mset (rankCandidates cs) = mset cs"
    unfolding rankCandidates_def by (rule mset_sortBy)
  show "rankCandidates (rankCandidates cs) = rankCandidates cs"
    by (rule rankCandidates_sorted_id [OF sorted_rankCandidates])
  show "selectCandidate (rankCandidates cs) = selectCandidate cs"
    by (rule selectCandidate_perm [OF m])
  show "selectCandidate (rankCandidates (extractNumberCandidates clean))
       = selectCandidate (extractNumberCandidates clean)"
    by (rule selectCandidate_perm) (simp add: rankCandidates_def mset_sortBy)
  show "selectCandidate cs = selectCandidate cs'" if "mset cs = mset cs'"
    by (rule selectCandidate_perm [OF that])
qed

theorem rankCandidates_deterministic_witness:
  "mset [candidate77, candidate300] = mset [candidate300, candidate77]
   \<and> selectCandidate [candidate77, candidate300] = Some 300.5
   \<and> selectCandidate [candidate300, candidate77] = Some 300.5"
proof -
  have m: "mset [candidate77, candidate300] = mset [candidate300, candidate77]" by simp
  have a: "selectCandidate [candidate300, candidate77] = Some 300.5"
    by (simp add: selectCandidate_def rankCandidates_def sortBy_def compareCandidates_def
        candidate77_def candidate300_def)
  from rankCandidates_deterministic [where cs = "[candidate77, candidate300]"
      and cs' = "[candidate300, candidate77]"] m
  have "selectCandidate [candidate77, candidate300] = selectCandidate [candidate300, candidate77]"
    by blast
  with m a show ?thesis by simp
qed


subsection \<open>The pattern stage\<close>



















section \<open>The bound on OCR calls\<close>

lemma handleStartPhoto_ocrCalls_le:
  "ocrCalls (fst (handleStartPhoto svc user img)) \<le> ocrCalls svc + 3"
proof (cases "states svc user")
  case None
  then show ?thesis by (simp add: handleStartPhoto_def)
next
  case (Some st)
  show ?thesis
  proof (cases "type' st = Start")
    case True
    from handleStartPhoto_calls(2) [OF Some True, of img] runStrategies_calls [of img]
    show ?thesis by (simp add: extractKwhReading_calls)
  next
    case False
    with Some show ?thesis by (simp add: handleStartPhoto_def)
  qed
qed

lemma handleEndPhoto_calls:
  assumes "states svc user = Some st" "type' st = End"
  shows "pipelineRuns (fst (handleEndPhoto svc user img now)) = pipelineRuns svc + 1"
    and "ocrCalls (fst (handleEndPhoto svc user img now))
           = ocrCalls svc + length (fst (extractKwhReading img))"
  using assms by (simp_all add: handleEndPhoto_def Let_def)

lemma handleEndPhoto_ocrCalls_le:
  "ocrCalls (fst (handleEndPhoto svc user img now)) \<le> ocrCalls svc + 3"
proof (cases "states svc user")
  case None
  then show ?thesis by (simp add: handleEndPhoto_def)
next
  case (Some st)
  show ?thesis
  proof (cases "type' st = End")
    case True
    from handleEndPhoto_calls(2) [OF Some True, of img now] runStrategies_calls [of img]
    show ?thesis by (simp add: extractKwhReading_calls)
  next
    case False
    with Some show ?thesis by (simp add: handleEndPhoto_def)
  qed
qed

text \<open>
  C5. \<open>extractKwhReading\<close> makes at most three \<open>performOCR\<close> calls for an image, and so
  does every photo submission to the service; when the three strategies yield
  confidences 55, 58 and 59 it makes exactly the three calls, in order, and its outcome
  is the evaluation of the third attempt.
\<close>

theorem extractKwhReading_at_most_three_calls:
  "length (fst (extractKwhReading img)) \<le> 3
   \<and> ocrCalls (fst (handleStartPhoto svc user img)) \<le> ocrCalls svc + 3
   \<and> ocrCalls (fst (handleEndPhoto svc user img now)) \<le> ocrCalls svc + 3
   \<and> ((\<forall>s. preprocess img s = None)
        \<and> ocr_attempt.confidence (ocr img Standard) = Some 55
        \<and> ocr_attempt.confidence (ocr img Aggressive) = Some 58
        \<and> ocr_attempt.confidence (ocr img AdaptiveThreshold) = Some 59
      \<longrightarrow> fst (extractKwhReading img) = [Standard, Aggressive, AdaptiveThreshold]
          \<and> snd (extractKwhReading img) = evaluateAttempt (ocr img AdaptiveThreshold))"
proof (intro conjI impI)
  show "length (fst (extractKwhReading img)) \<le> 3"
    unfolding extractKwhReading_calls by (rule runStrategies_calls)
  show "ocrCalls (fst (handleStartPhoto svc user img)) \<le> ocrCalls svc + 3"
    by (rule handleStartPhoto_ocrCalls_le)
  show "ocrCalls (fst (handleEndPhoto svc user img now)) \<le> ocrCalls svc + 3"
    by (rule handleEndPhoto_ocrCalls_le)
next
  assume a: "(\<forall>s. preprocess img s = None)
        \<and> ocr_attempt.confidence (ocr img Standard) = Some 55
        \<and> ocr_attempt.confidence (ocr img Aggressive) = Some 58
        \<and> ocr_attempt.confidence (ocr img AdaptiveThreshold) = Some 59"
  then have "lowConfidence (ocr img Standard)" "lowConfidence (ocr img Aggressive)"
    by (simp_all add: lowConfidence_def MIN_OCR_CONFIDENCE_def)
  with a have r: "runStrategies img =
      ([Standard, Aggressive, AdaptiveThreshold], Inr (ocr img AdaptiveThreshold))"
    by (simp add: runStrategies_ladder)
  show "fst (extractKwhReading img) = [Standard, Aggressive, AdaptiveThreshold]"
    and "snd (extractKwhReading img) = evaluateAttempt (ocr img AdaptiveThreshold)"
    by (simp_all add: extractKwhReading_def r)
qed

theorem extractKwhReading_at_most_three_calls_witness:
  "fst (extractKwhReading image_55_58_59) = [Standard, Aggressive, AdaptiveThreshold]
   \<and> length (fst (extractKwhReading image_55_58_59)) = 3"
proof -
  have "(\<forall>s. preprocess image_55_58_59 s = None)
        \<and> ocr_attempt.confidence (ocr image_55_58_59 Standard) = Some 55
        \<and> ocr_attempt.confidence (ocr image_55_58_59 Aggressive) = Some 58
        \<and> ocr_attempt.confidence (ocr image_55_58_59 AdaptiveThreshold) = Some 59"
    by (simp add: image_55_58_59_def attemptWith_def)
  with extractKwhReading_at_most_three_calls [where img = image_55_58_59]
  have "fst (extractKwhReading image_55_58_59) = [Standard, Aggressive, AdaptiveThreshold]"
    by blast
  then show ?thesis by simp
qed

end
